theory Spec2Isabelle
  imports Main "HOL-Library.AList" "HOL-Library.Sublist" "HOL-Library.Word"
begin

section \<open>Python values\<close>

text \<open>
  A Python \<open>str\<close> is a sequence of Unicode code points, and \<open>len\<close>, \<open>strip\<close>,
  \<open>split\<close> and \<open>startswith\<close> count code points; so a \<open>str\<close> is a list of code points
  here. \<open>py\<close> turns an ASCII literal of the source into that form. A \<open>bytes\<close> object is
  a list of 8-bit words.
\<close>

type_synonym pystr = "nat list"

type_synonym byte = "8 word"

definition py :: "string \<Rightarrow> pystr" where
  "py s = map of_char s"

text \<open>
  The values the retrievers store in dictionaries and in their configuration: \<open>None\<close>,
  a bool (the repository's \<open>LocalSearchTest\<close> configures \<open>skip_retrieval_token=False\<close>),
  a \<open>str\<close>, or a list of \<open>str\<close>.
\<close>

datatype pyval = PNone | PBool bool | PStr pystr | PList "pystr list"

text \<open>The exceptions that can cross the functions modelled below.\<close>

datatype exn =
    ValueError
  | KeyError pystr
  | UnicodeDecodeError
  | JSONDecodeError
  | ConnectionError
  | Timeout
  | HTTPError
  | AssertionError

text \<open>\<open>CONTENT = 'content'\<close> and \<open>DEFAULT_NUM_TO_RETRIEVE = 5\<close>.\<close>

definition CONTENT :: pystr where
  "CONTENT = py ''content''"

definition DEFAULT_NUM_TO_RETRIEVE :: int where
  "DEFAULT_NUM_TO_RETRIEVE = 5"

section \<open>String operations of the Python library\<close>

text \<open>\<open>s.startswith(p)\<close>.\<close>

definition startswith :: "pystr \<Rightarrow> pystr \<Rightarrow> bool" where
  "startswith s p = (take (length p) s = p)"

text \<open>
  \<open>str(idx)\<close> for a non-negative integer, as the f-strings of the mock use it on the
  values of \<open>range(num_ret)\<close>: the decimal digits, most significant first.
\<close>

fun str_of_nat :: "nat \<Rightarrow> pystr" where
  "str_of_nat n = (if n < 10 then [48 + n] else str_of_nat (n div 10) @ [48 + n mod 10])"

declare str_of_nat.simps [simp del]

text \<open>\<open>range(n)\<close>: empty for \<open>n \<le> 0\<close>.\<close>

definition py_range :: "int \<Rightarrow> nat list" where
  "py_range n = [0..<nat n]"

text \<open>
  The slice \<open>xs[:n]\<close>: the first \<open>n\<close> elements, and for a negative \<open>n\<close> all but the
  last \<open>-n\<close>.
\<close>

definition slice_to :: "'a list \<Rightarrow> int \<Rightarrow> 'a list" where
  "slice_to xs n = (if 0 \<le> n then take (nat n) xs else take (nat (int (length xs) + n)) xs)"

text \<open>
  The characters \<open>str.strip()\<close> removes (those for which \<open>str.isspace\<close> holds).
\<close>

definition isspace :: "nat \<Rightarrow> bool" where
  "isspace c =
    ((9 \<le> c \<and> c \<le> 13) \<or> (28 \<le> c \<and> c \<le> 32) \<or> c = 0x85 \<or> c = 0xA0 \<or> c = 0x1680
      \<or> (0x2000 \<le> c \<and> c \<le> 0x200A) \<or> c = 0x2028 \<or> c = 0x2029 \<or> c = 0x202F
      \<or> c = 0x205F \<or> c = 0x3000)"

definition str_strip :: "pystr \<Rightarrow> pystr" where
  "str_strip s = rev (dropWhile isspace (rev (dropWhile isspace s)))"

text \<open>
  \<open>s.split(sep)\<close> for a separator of one character: every occurrence splits, empty
  pieces are kept, and the result is never empty.
\<close>

primrec str_split :: "nat \<Rightarrow> pystr \<Rightarrow> pystr list" where
  "str_split sep [] = [[]]"
| "str_split sep (c # cs) =
    (if c = sep then [] # str_split sep cs
     else (case str_split sep cs of
             [] \<Rightarrow> [[c]]
           | p # ps \<Rightarrow> (c # p) # ps))"

text \<open>\<open>s.replace(c, "")\<close> for a separator of one character.\<close>

definition str_remove :: "nat \<Rightarrow> pystr \<Rightarrow> pystr" where
  "str_remove c s = filter (\<lambda>x. x \<noteq> c) s"

subsection \<open>Decoding UTF-8\<close>

text \<open>
  \<open>bytes.decode("utf-8", errors=...)\<close> of the Python runtime. The decoder reads one
  sequence at a time. \<open>utf8_next ch s\<close> looks at the lead byte \<open>ch\<close> and the bytes \<open>s\<close>
  after it and returns the scalar value of a well-formed sequence, or \<open>None\<close> for an
  ill-formed one, with the number of bytes of \<open>s\<close> that belong to it (an ill-formed
  sequence ends before the first byte that cannot continue it, or at the end of the
  data). The error handler decides what an ill-formed sequence becomes: \<open>strict\<close>
  raises \<open>UnicodeDecodeError\<close>, \<open>ignore\<close> puts nothing in its place, \<open>replace\<close> puts
  U+FFFD in its place.
\<close>

datatype errors = Strict | Ignore | Replace

definition is_continuation :: "byte \<Rightarrow> bool" where
  "is_continuation c = (0x80 \<le> c \<and> c \<le> 0xBF)"

definition utf8_next :: "byte \<Rightarrow> byte list \<Rightarrow> nat option \<times> nat" where
  "utf8_next ch s =
    (if ch < 0x80 then (Some (unat ch), 0)
     else if ch < 0xE0 then
       (if ch < 0xC2 then (None, 0)
        else (case s of
                [] \<Rightarrow> (None, 0)
              | ch2 # _ \<Rightarrow>
                  if \<not> is_continuation ch2 then (None, 0)
                  else (Some ((unat ch - 0xC0) * 64 + (unat ch2 - 0x80)), 1)))
     else if ch < 0xF0 then
       (case s of
          [] \<Rightarrow> (None, 0)
        | ch2 # s2 \<Rightarrow>
            if \<not> is_continuation ch2 \<or> (if ch2 < 0xA0 then ch = 0xE0 else ch = 0xED)
            then (None, 0)
            else (case s2 of
                    [] \<Rightarrow> (None, 1)
                  | ch3 # _ \<Rightarrow>
                      if \<not> is_continuation ch3 then (None, 1)
                      else (Some ((unat ch - 0xE0) * 4096 + (unat ch2 - 0x80) * 64
                                   + (unat ch3 - 0x80)), 2)))
     else if ch < 0xF5 then
       (case s of
          [] \<Rightarrow> (None, 0)
        | ch2 # s2 \<Rightarrow>
            if \<not> is_continuation ch2 \<or> (if ch2 < 0x90 then ch = 0xF0 else ch = 0xF4)
            then (None, 0)
            else (case s2 of
                    [] \<Rightarrow> (None, 1)
                  | ch3 # s3 \<Rightarrow>
                      if \<not> is_continuation ch3 then (None, 1)
                      else (case s3 of
                              [] \<Rightarrow> (None, 2)
                            | ch4 # _ \<Rightarrow>
                                if \<not> is_continuation ch4 then (None, 2)
                                else (Some ((unat ch - 0xF0) * 262144
                                             + (unat ch2 - 0x80) * 4096
                                             + (unat ch3 - 0x80) * 64
                                             + (unat ch4 - 0x80)), 3))))
     else (None, 0))"

fun bytes_decode_utf8 :: "errors \<Rightarrow> byte list \<Rightarrow> exn + pystr" where
  "bytes_decode_utf8 errs [] = Inr []"
| "bytes_decode_utf8 errs (ch # s) =
    (case utf8_next ch s of
       (Some c, k) \<Rightarrow>
         (case bytes_decode_utf8 errs (drop k s) of
            Inl e \<Rightarrow> Inl e
          | Inr t \<Rightarrow> Inr (c # t))
     | (None, k) \<Rightarrow>
         (case errs of
            Strict \<Rightarrow> Inl UnicodeDecodeError
          | Ignore \<Rightarrow> bytes_decode_utf8 Ignore (drop k s)
          | Replace \<Rightarrow>
              (case bytes_decode_utf8 Replace (drop k s) of
                 Inl e \<Rightarrow> Inl e
               | Inr t \<Rightarrow> Inr (0xFFFD # t))))"

text \<open>
  The sequences of a byte string, one entry each: \<open>Some c\<close> for a well-formed sequence
  with scalar value \<open>c\<close>, \<open>None\<close> for an ill-formed one. It is the yardstick the
  handlers are compared with.
\<close>

fun utf8_sequences :: "byte list \<Rightarrow> nat option list" where
  "utf8_sequences [] = []"
| "utf8_sequences (ch # s) =
    (case utf8_next ch s of (r, k) \<Rightarrow> r # utf8_sequences (drop k s))"

section \<open>Documents\<close>

text \<open>
  A Python \<open>dict\<close> keeps its keys in insertion order and an assignment to a present key
  replaces the value in place: an association list updated with \<open>AList.update\<close>.
  A search-response item maps \<open>str\<close> keys to \<open>str\<close> values; a document, as
  \<open>create_content_dict\<close> builds it, maps \<open>str\<close> keys to values.
\<close>

type_synonym item = "(pystr \<times> pystr) list"

type_synonym document = "(pystr \<times> pyval) list"

text \<open>A query's result: \<open>None\<close> (no retrieval) or a list of documents.\<close>

type_synonym query_result = "document list option"

text \<open>\<open>d.get(key, default)\<close>.\<close>

definition dict_get :: "('k \<times> 'v) list \<Rightarrow> 'k \<Rightarrow> 'v \<Rightarrow> 'v" where
  "dict_get d k dflt = (case map_of d k of None \<Rightarrow> dflt | Some v \<Rightarrow> v)"

text \<open>
  \<open>RetrieverAPI.create_content_dict(content, **kwargs)\<close>: the dictionary
  \<open>{CONTENT: content}\<close>, updated with the keyword arguments in the order given.
\<close>

definition create_content_dict :: "pyval \<Rightarrow> (pystr \<times> pyval) list \<Rightarrow> document" where
  "create_content_dict content kwargs =
     fold (\<lambda>(k, v). AList.update k v) kwargs [(CONTENT, content)]"

section \<open>SearchEngineRetrieverMock\<close>

text \<open>
  The inner loop of \<open>SearchEngineRetrieverMock.retrieve\<close>, over \<open>range(num_ret)\<close>:
  each round appends one document whose content is the string
  \<open>f'content {idx} for query "{query}"'\<close> (34 is the double quote).
\<close>

fun mock_docs_loop :: "pystr \<Rightarrow> nat list \<Rightarrow> document list \<Rightarrow> document list" where
  "mock_docs_loop query [] docs = docs"
| "mock_docs_loop query (idx # idxs) docs =
    (let doc = create_content_dict
                 (PStr (py ''content '' @ str_of_nat idx @ py '' for query '' @ [34]
                        @ query @ [34]))
                 [(py ''url'', PStr (py ''url_'' @ str_of_nat idx)),
                  (py ''title'', PStr (py ''title_'' @ str_of_nat idx))]
     in mock_docs_loop query idxs (docs @ [doc]))"

text \<open>The outer loop, over the queries; \<open>tok\<close> is \<open>self.skip_query_token\<close>.\<close>

fun mock_queries_loop ::
  "pyval \<Rightarrow> int \<Rightarrow> pystr list \<Rightarrow> query_result list \<Rightarrow> query_result list" where
  "mock_queries_loop tok num_ret [] all_docs = all_docs"
| "mock_queries_loop tok num_ret (query # queries) all_docs =
    (let docs = (if PStr query = tok then None
                 else Some (mock_docs_loop query (py_range num_ret) []))
     in mock_queries_loop tok num_ret queries (all_docs @ [docs]))"

definition mock_retrieve :: "pyval \<Rightarrow> pystr list \<Rightarrow> int \<Rightarrow> query_result list" where
  "mock_retrieve tok queries num_ret = mock_queries_loop tok num_ret queries []"

section \<open>The outside world\<close>

text \<open>
  Everything \<open>SearchEngineRetriever\<close> reaches over the network or through a library
  whose code is not part of the module: the search provider \<open>googlesearch.search\<close>,
  \<open>requests.get\<close> and \<open>requests.post\<close>, the title that \<open>bs4\<close> finds in a page, and
  the text rendering of \<open>html2text\<close>. Each of them may raise: \<open>soup_title\<close> stands for
  parsing the page and rendering its title element (\<open>None\<close> when there is none), and
  \<open>html2text_handle\<close> for \<open>HTML2Text.handle\<close>, which raises \<open>AssertionError\<close> on some
  malformed markup. The world is the log of the calls made so far, oldest first; the
  answer to a call may depend on how many calls came before it, so two requests for one
  URL need not agree.
\<close>

datatype event =
    Search pystr int
  | Get pystr
  | Post pystr pystr int

type_synonym world = "event list"

text \<open>
  \<open>googlesearch.search\<close> returns a generator. Each step of it yields a URL or raises;
  the end of the list is the end of the iteration.
\<close>

datatype gen_step = Yield pystr | Raise exn

text \<open>The URLs a generator yields, in its order.\<close>

fun yielded :: "gen_step list \<Rightarrow> pystr list" where
  "yielded [] = []"
| "yielded (Yield url # g) = url # yielded g"
| "yielded (Raise e # g) = yielded g"

text \<open>
  The response to the POST of \<open>_query_search_server\<close>: the status code, and what
  \<open>.json().get('response', None)\<close> evaluates to on it (an exception of \<open>json()\<close>,
  \<open>None\<close> for a body without the key, or the list of items).
\<close>

record response =
  status_code :: int
  json_response :: "exn + item list option"

record env =
  googlesearch_search :: "nat \<Rightarrow> pystr \<Rightarrow> int \<Rightarrow> gen_step list"
  requests_get :: "nat \<Rightarrow> pystr \<Rightarrow> exn + byte list"
  requests_post :: "nat \<Rightarrow> pystr \<Rightarrow> pystr \<Rightarrow> int \<Rightarrow> exn + response"
  soup_title :: "byte list \<Rightarrow> exn + pystr option"
  html2text_handle :: "pystr \<Rightarrow> exn + pystr"

fun is_post :: "event \<Rightarrow> bool" where
  "is_post (Post _ _ _) = True"
| "is_post _ = False"

fun is_get :: "event \<Rightarrow> bool" where
  "is_get (Get _) = True"
| "is_get _ = False"

fun is_search :: "event \<Rightarrow> bool" where
  "is_search (Search _ _) = True"
| "is_search _ = False"

section \<open>SearchEngineRetriever\<close>

text \<open>The attributes of the object.\<close>

record retriever =
  skip_query_token :: pyval
  server_address :: pystr
  use_local :: bool

text \<open>The configuration: \<open>opt['skip_retrieval_token']\<close> and \<open>opt.get('search_server')\<close>.\<close>

record opt =
  skip_retrieval_token :: pyval
  search_server :: "pystr option"

text \<open>
  \<open>_validate_server(address)\<close>. \<open>not address\<close> holds of \<open>None\<close> and of the empty
  string. The second component tells whether \<open>self.use_local = True\<close> was executed.
\<close>

definition validate_server :: "pystr option \<Rightarrow> exn + (pystr \<times> bool)" where
  "validate_server address =
    (case address of
       None \<Rightarrow> Inl ValueError
     | Some a \<Rightarrow>
         if a = [] then Inl ValueError
         else if startswith a (py ''local_google'') then Inr (a, True)
         else if startswith a (py ''http://'') \<or> startswith a (py ''https://'')
         then Inr (a, False)
         else Inr (py ''http://'' @ a, False))"

text \<open>
  \<open>__init__\<close>: the validated address is stored; \<open>use_local\<close> is set to \<open>True\<close>, and
  once more if the address starts with \<open>local_google\<close>.
\<close>

definition init :: "opt \<Rightarrow> exn + retriever" where
  "init options =
    (case validate_server (search_server options) of
       Inl e \<Rightarrow> Inl e
     | Inr (address, _) \<Rightarrow>
         (let self = \<lparr>skip_query_token = skip_retrieval_token options,
                      server_address = address, use_local = True\<rparr>
          in if startswith (server_address self) (py ''local_google'')
             then Inr (self\<lparr>use_local := True\<rparr>)
             else Inr self))"

text \<open>
  \<open>_query_search_server(query_term, n)\<close>: one POST; the items of a 200 response, and
  \<open>None\<close> (the function falls off its end) for any other status.
\<close>

definition query_search_server ::
  "env \<Rightarrow> retriever \<Rightarrow> pystr \<Rightarrow> int \<Rightarrow> world \<Rightarrow> (exn + item list option) \<times> world" where
  "query_search_server env self query_term n w =
    (let server = server_address self;
         w' = w @ [Post server query_term n]
     in case requests_post env (length w) server query_term n of
          Inl e \<Rightarrow> (Inl e, w')
        | Inr server_response \<Rightarrow>
            if status_code server_response = 200
            then (case json_response server_response of
                    Inl e \<Rightarrow> (Inl e, w')
                  | Inr r \<Rightarrow> (Inr r, w'))
            else (Inr None, w'))"

text \<open>
  \<open>_get_and_parse(url)\<close>. The first \<open>requests.get(url)\<close> stands before the \<open>try\<close>:
  an exception of it leaves the function. The second stands inside the \<open>try\<close>: an
  exception of it gives \<open>None\<close>. Everything after it stands outside the \<open>try\<close> as
  well: an exception of the title extraction or of the rendering leaves the function.
  The title is the rendered title element, or the string \<open>"None"\<close> when the page has
  none, without newlines (10) and carriage returns (13); the content is the rendering of
  the page decoded with \<open>page.decode("utf-8", errors="ignore")\<close>. The diagnostic
  \<open>print\<close> of title, URL and content length is not part of the model.
\<close>

definition get_and_parse ::
  "env \<Rightarrow> pystr \<Rightarrow> world \<Rightarrow> (exn + item option) \<times> world" where
  "get_and_parse env url w =
    (let w1 = w @ [Get url] in
     case requests_get env (length w) url of
       Inl e \<Rightarrow> (Inl e, w1)
     | Inr _ \<Rightarrow>
         (let w2 = w1 @ [Get url] in
          case requests_get env (length w1) url of
            Inl e \<Rightarrow> (Inr None, w2)
          | Inr page \<Rightarrow>
              (let output_dict = [(py ''title'', []), (py ''content'', []), (py ''url'', url)]
               in case soup_title env page of
                    Inl e \<Rightarrow> (Inl e, w2)
                  | Inr pre_rendered \<Rightarrow>
                      (let title = (case pre_rendered of
                                      Some rendered \<Rightarrow> rendered
                                    | None \<Rightarrow> py ''None'');
                           output_dict = AList.update (py ''title'')
                                           (str_remove 13 (str_remove 10 title)) output_dict
                       in case bytes_decode_utf8 Ignore page of
                            Inl e \<Rightarrow> (Inl e, w2)
                          | Inr text \<Rightarrow>
                              (case html2text_handle env text of
                                 Inl e \<Rightarrow> (Inl e, w2)
                               | Inr content \<Rightarrow>
                                   (Inr (Some (AList.update (py ''content'') content
                                                 output_dict)), w2))))))"

text \<open>
  The loop of \<open>_query_local_search_server\<close> over the generator. \<open>if maybe_content\<close>
  holds of a dictionary that is not empty.
\<close>

fun local_loop ::
  "env \<Rightarrow> int \<Rightarrow> gen_step list \<Rightarrow> item list \<Rightarrow> world \<Rightarrow> (exn + item list) \<times> world" where
  "local_loop env n [] content w = (Inr content, w)"
| "local_loop env n (Raise e # urls) content w = (Inl e, w)"
| "local_loop env n (Yield url # urls) content w =
    (if n \<le> int (length content) then (Inr content, w)
     else (case get_and_parse env url w of
             (Inl e, w') \<Rightarrow> (Inl e, w')
           | (Inr None, w') \<Rightarrow> local_loop env n urls content w'
           | (Inr (Some maybe_content), w') \<Rightarrow>
               if maybe_content \<noteq> []
               then local_loop env n urls (content @ [maybe_content]) w'
               else local_loop env n urls content w'))"

text \<open>
  \<open>_query_local_search_server(query_term, n)\<close>: the provider is called with
  \<open>num=n, stop=n\<close>, the loop runs, and \<open>content[:n]\<close> is returned (through a dictionary
  that always has the key \<open>response\<close>).
\<close>

definition query_local_search_server ::
  "env \<Rightarrow> pystr \<Rightarrow> int \<Rightarrow> world \<Rightarrow> (exn + item list option) \<times> world" where
  "query_local_search_server env query_term n w =
    (let urls = googlesearch_search env (length w) query_term n
     in case local_loop env n urls [] (w @ [Search query_term n]) of
          (Inl e, w') \<Rightarrow> (Inl e, w')
        | (Inr content, w') \<Rightarrow> (Inr (Some (slice_to content n)), w'))"

text \<open>
  The loop of \<open>_retrieve_single\<close> over the items of the response: \<open>url\<close> and \<open>title\<close>
  are read with \<open>get\<close> and the default \<open>''\<close>, the content with \<open>rd[CONTENT]\<close>, which
  raises \<open>KeyError\<close> on an item without the key. The sentences are the stripped pieces
  between newlines, without the pieces that are empty or blank.
\<close>

definition sentences_of :: "pystr \<Rightarrow> pystr list" where
  "sentences_of c =
     map str_strip (filter (\<lambda>s. s \<noteq> [] \<and> str_strip s \<noteq> []) (str_split 10 c))"

fun assemble_docs :: "item list \<Rightarrow> document list \<Rightarrow> exn + document list" where
  "assemble_docs [] retrieved_docs = Inr retrieved_docs"
| "assemble_docs (rd # rds) retrieved_docs =
    (let url = dict_get rd (py ''url'') [];
         title = dict_get rd (py ''title'') []
     in case map_of rd CONTENT of
          None \<Rightarrow> Inl (KeyError CONTENT)
        | Some c \<Rightarrow>
            assemble_docs rds
              (retrieved_docs @
                 [create_content_dict (PList (sentences_of c))
                    [(py ''url'', PStr url), (py ''title'', PStr title)]]))"

text \<open>
  The end of \<open>_retrieve_single\<close>, from the test of the response on (lines 208 to
  223): \<open>not search_server_resp\<close> holds of \<open>None\<close> and of the empty list, and gives the
  empty list of documents; any other response goes through the assembly loop, and what
  the loop raises is not handled.
\<close>

definition retrieve_single_tail :: "item list option \<Rightarrow> exn + query_result" where
  "retrieve_single_tail search_server_resp =
    (case search_server_resp of
       None \<Rightarrow> Inr (Some [])
     | Some resp \<Rightarrow>
         if resp = [] then Inr (Some [])
         else (case assemble_docs resp [] of
                 Inl e \<Rightarrow> Inl e
               | Inr retrieved_docs \<Rightarrow> Inr (Some retrieved_docs)))"

text \<open>
  \<open>_retrieve_single(search_query, num_ret)\<close>. The object is returned with the
  result, since \<open>self.use_local = True\<close> is assigned before the flag is read. An
  exception of the search leaves the function; a response goes to the end of the
  function above, whose result or exception is the function's.
\<close>

definition retrieve_single ::
  "env \<Rightarrow> retriever \<Rightarrow> pystr \<Rightarrow> int \<Rightarrow> world \<Rightarrow> (exn + query_result) \<times> retriever \<times> world" where
  "retrieve_single env self search_query num_ret w =
    (if PStr search_query = skip_query_token self then (Inr None, self, w)
     else
       (let self = self\<lparr>use_local := True\<rparr>
        in case (if use_local self
                 then query_local_search_server env search_query num_ret w
                 else query_search_server env self search_query num_ret w) of
             (Inl e, w') \<Rightarrow> (Inl e, self, w')
           | (Inr search_server_resp, w') \<Rightarrow>
               (retrieve_single_tail search_server_resp, self, w')))"

text \<open>
  \<open>retrieve(queries, num_ret)\<close>: the list comprehension calls \<open>_retrieve_single\<close>
  on the queries from left to right; an exception ends it.
\<close>

fun retrieve ::
  "env \<Rightarrow> retriever \<Rightarrow> pystr list \<Rightarrow> int \<Rightarrow> world
     \<Rightarrow> (exn + query_result list) \<times> retriever \<times> world" where
  "retrieve env self [] num_ret w = (Inr [], self, w)"
| "retrieve env self (q # queries) num_ret w =
    (case retrieve_single env self q num_ret w of
       (Inl e, self', w') \<Rightarrow> (Inl e, self', w')
     | (Inr r, self', w') \<Rightarrow>
         (case retrieve env self' queries num_ret w' of
            (Inl e, self'', w'') \<Rightarrow> (Inl e, self'', w'')
          | (Inr rs, self'', w'') \<Rightarrow> (Inr (r # rs), self'', w'')))"

section \<open>Concrete inputs\<close>

text \<open>
  A page (the bytes of \<open>"hi\n \xff\n a "\<close>), worlds and retriever objects on which
  the theorems below are instantiated: a world where the provider yields two URLs and
  every request succeeds, one where the requests for the first URL fail, one where the
  provider fails, one where the rendering of a page fails; an object in local mode, and one with a remote address and the flag
  \<open>use_local\<close> cleared.
\<close>

definition page_hi :: "byte list" where
  "page_hi = [0x68, 0x69, 0x0A, 0x20, 0xFF, 0x0A, 0x20, 0x61, 0x20]"

definition env_up :: env where
  "env_up = \<lparr>googlesearch_search = (\<lambda>t q n. [Yield (py ''u1''), Yield (py ''u2'')]),
             requests_get = (\<lambda>t url. Inr page_hi),
             requests_post = (\<lambda>t a q n. Inl ConnectionError),
             soup_title = (\<lambda>page. Inr None),
             html2text_handle = (\<lambda>s. Inr s)\<rparr>"

definition env_u1_down :: env where
  "env_u1_down =
     env_up\<lparr>requests_get :=
              (\<lambda>t url. if url = py ''u1'' then Inl ConnectionError else Inr page_hi)\<rparr>"

definition env_provider_down :: env where
  "env_provider_down = env_up\<lparr>googlesearch_search := (\<lambda>t q n. [Raise HTTPError])\<rparr>"

definition env_render_fails :: env where
  "env_render_fails = env_up\<lparr>html2text_handle := (\<lambda>s. Inl AssertionError)\<rparr>"

definition self_local :: retriever where
  "self_local = \<lparr>skip_query_token = PStr (py ''skip''),
                  server_address = py ''local_google'', use_local = True\<rparr>"

definition self_remote :: retriever where
  "self_remote = \<lparr>skip_query_token = PBool False,
                   server_address = py ''http://example.com/search'', use_local = False\<rparr>"



section \<open>Evaluation on the concrete inputs\<close>

lemmas eval_defs =
  env_up_def env_u1_down_def env_provider_down_def env_render_fails_def self_local_def
  self_remote_def page_hi_def
  retrieve_single_def retrieve_single_tail_def query_local_search_server_def get_and_parse_def
  py_def
  utf8_next_def is_continuation_def slice_to_def sentences_of_def str_strip_def isspace_def
  CONTENT_def dict_get_def create_content_dict_def str_remove_def

lemma retrieve_up_skip_q:
  "retrieve env_up self_local [py ''skip'', py ''q''] 1 [] =
     (Inr [None,
           Some [[(py ''content'', PList [py ''hi'', py ''a'']), (py ''url'', PStr (py ''u1'')),
                  (py ''title'', PStr (py ''None''))]]],
      self_local, [Search (py ''q'') 1, Get (py ''u1''), Get (py ''u1'')])"
  by (simp add: eval_defs)



lemma sequences_page_hi:
  "utf8_sequences page_hi = [Some 104, Some 105, Some 10, Some 32, None, Some 10, Some 32, Some 97, Some 32]"
  by (simp add: page_hi_def utf8_next_def is_continuation_def)

section \<open>Facts about the batch loop\<close>

lemma mock_queries_loop_map:
  "mock_queries_loop tok n qs acc =
     acc @ map (\<lambda>q. if PStr q = tok then None else Some (mock_docs_loop q (py_range n) [])) qs"
  by (induction qs arbitrary: acc) (simp_all add: Let_def)

lemma mock_docs_loop_length: "length (mock_docs_loop q idxs acc) = length acc + length idxs"
  by (induction idxs arbitrary: acc) (simp_all add: Let_def)

lemma retrieve_single_token:
  "retrieve_single env self q n w = (r, self', w') \<Longrightarrow>
     skip_query_token self' = skip_query_token self \<and> server_address self' = server_address self"
  by (auto simp: retrieve_single_def Let_def split: if_splits prod.splits sum.splits)

lemma retrieve_append:
  "retrieve env self (xs @ ys) n w =
    (case retrieve env self xs n w of
       (Inl e, s1, w1) \<Rightarrow> (Inl e, s1, w1)
     | (Inr rs1, s1, w1) \<Rightarrow>
         (case retrieve env s1 ys n w1 of
            (Inl e, s2, w2) \<Rightarrow> (Inl e, s2, w2)
          | (Inr rs2, s2, w2) \<Rightarrow> (Inr (rs1 @ rs2), s2, w2)))"
  by (induction xs arbitrary: self w) (auto split: prod.splits sum.splits)

lemma retrieve_length:
  "retrieve env self qs n w = (Inr rs, self', w') \<Longrightarrow> length rs = length qs"
  by (induction qs arbitrary: self w rs) (auto split: prod.splits sum.splits)

lemma retrieve_token:
  "retrieve env self qs n w = (r, self', w') \<Longrightarrow> skip_query_token self' = skip_query_token self"
proof (induction qs arbitrary: self w r)
  case Nil then show ?case by simp
next
  case (Cons q qs)
  then show ?case
    by (auto split: prod.splits sum.splits dest!: retrieve_single_token) 
qed

lemma retrieve_split_at:
  assumes "retrieve env self qs n w = (Inr rs, self', w')" and "i < length qs"
  shows "\<exists>s1 w1 s2 w2.
           retrieve env self (take i qs) n w = (Inr (take i rs), s1, w1)
         \<and> retrieve_single env s1 (qs ! i) n w1 = (Inr (rs ! i), s2, w2)
         \<and> retrieve env self (take (Suc i) qs) n w = (Inr (take (Suc i) rs), s2, w2)
         \<and> skip_query_token s1 = skip_query_token self"
proof -
  have qs: "qs = take i qs @ (qs ! i) # drop (Suc i) qs"
    using assms(2) by (simp add: id_take_nth_drop)
  have len: "length rs = length qs" using assms(1) by (rule retrieve_length)
  obtain r1 s1 w1 where p: "retrieve env self (take i qs) n w = (r1, s1, w1)"
    by (cases "retrieve env self (take i qs) n w") auto
  obtain r2 s2 w2 where s: "retrieve_single env s1 (qs ! i) n w1 = (r2, s2, w2)"
    by (cases "retrieve_single env s1 (qs ! i) n w1") auto
  obtain r3 s3 w3 where t: "retrieve env s2 (drop (Suc i) qs) n w2 = (r3, s3, w3)"
    by (cases "retrieve env s2 (drop (Suc i) qs) n w2") auto
  have "retrieve env self (take i qs @ (qs ! i) # drop (Suc i) qs) n w = (Inr rs, self', w')"
    using assms(1) qs by simp
  then obtain a b c where r1: "r1 = Inr a" and r2: "r2 = Inr b" and r3: "r3 = Inr c"
      and rs: "rs = a @ b # c"
    using p s t by (auto simp: retrieve_append split: sum.splits)
  have la: "length a = i"
    using p r1 retrieve_length [of env self "take i qs" n w a s1 w1] assms(2) by simp
  have "take (Suc i) qs = take i qs @ [qs ! i]"
    using assms(2) by (simp add: take_Suc_conv_app_nth)
  then have "retrieve env self (take (Suc i) qs) n w = (Inr (a @ [b]), s2, w2)"
    using p s r1 r2 by (simp add: retrieve_append)
  moreover have "take i rs = a" "rs ! i = b" "take (Suc i) rs = a @ [b]"
    using rs la by (simp_all add: nth_append)
  moreover have "skip_query_token s1 = skip_query_token self"
    using p by (rule retrieve_token)
  ultimately show ?thesis using p s r1 r2 by auto
qed


section \<open>Facts about the log of calls\<close>

lemma get_and_parse_world:
  "snd (get_and_parse env url w) = w @ [Get url] \<or> snd (get_and_parse env url w) = w @ [Get url, Get url]"
  by (simp add: get_and_parse_def Let_def split: sum.splits)

lemma local_loop_world:
  "\<exists>evs. snd (local_loop env n g c w) = w @ evs \<and> (\<forall>e\<in>set evs. is_get e)"
proof (induction env n g c w rule: local_loop.induct)
  case (1 env n content w)
  then show ?case by simp
next
  case (2 env n e urls content w)
  then show ?case by simp
next
  case (3 env n url urls content w)
  show ?case
  proof (cases "n \<le> int (length content)")
    case True
    then show ?thesis by simp
  next
    case False
    obtain r w' where g: "get_and_parse env url w = (r, w')"
      by (cases "get_and_parse env url w") auto
    from get_and_parse_world [of env url w] g
    obtain evs0 where w': "w' = w @ evs0" and e0: "\<forall>e\<in>set evs0. is_get e"
      by auto
    show ?thesis
    proof (cases r)
      case (Inl e)
      then show ?thesis using False g w' e0 by auto
    next
      case (Inr m)
      show ?thesis
      proof (cases m)
        case None
        from "3.IH"(1) [OF False g [symmetric] Inr None]
        obtain evs where "snd (local_loop env n urls content w') = w' @ evs" "\<forall>e\<in>set evs. is_get e"
          by auto
        then show ?thesis using False g Inr None w' e0 by auto
      next
        case (Some mc)
        show ?thesis
        proof (cases "mc = []")
          case True
          from "3.IH"(3) [OF False g [symmetric] Inr Some] True
          obtain evs where "snd (local_loop env n urls content w') = w' @ evs" "\<forall>e\<in>set evs. is_get e"
            by auto
          then show ?thesis using False g Inr Some True w' e0 by auto
        next
          case F: False
          from "3.IH"(2) [OF False g [symmetric] Inr Some] F
          obtain evs where "snd (local_loop env n urls (content @ [mc]) w') = w' @ evs" "\<forall>e\<in>set evs. is_get e"
            by auto
          then show ?thesis using False g Inr Some F w' e0 by auto
        qed
      qed
    qed
  qed
qed

lemma query_local_world:
  "\<exists>evs. snd (query_local_search_server env q n w) = w @ Search q n # evs \<and> (\<forall>e\<in>set evs. is_get e)"
proof -
  obtain evs where "snd (local_loop env n (googlesearch_search env (length w) q n) [] (w @ [Search q n]))
       = (w @ [Search q n]) @ evs" "\<forall>e\<in>set evs. is_get e"
    using local_loop_world by blast
  then show ?thesis
    by (auto simp: query_local_search_server_def Let_def split: prod.splits sum.splits)
qed

lemma retrieve_single_world:
  "PStr q \<noteq> skip_query_token self \<Longrightarrow>
     snd (snd (retrieve_single env self q n w)) = snd (query_local_search_server env q n w)"
  by (auto simp: retrieve_single_def Let_def split: prod.splits sum.splits)

lemma is_get_not_post: "is_get e \<Longrightarrow> \<not> is_post e"
  by (cases e) auto

lemma retrieve_single_posts:
  "filter is_post (snd (snd (retrieve_single env self q n w))) = filter is_post w"
proof (cases "PStr q = skip_query_token self")
  case True
  then show ?thesis by (simp add: retrieve_single_def)
next
  case False
  obtain evs where "snd (query_local_search_server env q n w) = w @ Search q n # evs"
      "\<forall>e\<in>set evs. is_get e"
    using query_local_world by blast
  moreover have "filter is_post evs = []"
    using calculation(2) by (auto simp: filter_empty_conv is_get_not_post)
  ultimately show ?thesis using retrieve_single_world [OF False] by simp
qed

lemma retrieve_posts:
  "filter is_post (snd (snd (retrieve env self qs n w))) = filter is_post w"
proof (induction qs arbitrary: self w)
  case Nil
  then show ?case by simp
next
  case (Cons q qs)
  obtain r s1 w1 where s: "retrieve_single env self q n w = (r, s1, w1)"
    by (cases "retrieve_single env self q n w") auto
  have p: "filter is_post w1 = filter is_post w"
    using retrieve_single_posts [of env self q n w] s by simp
  show ?case
  proof (cases r)
    case (Inl e)
    then show ?thesis using s p by simp
  next
    case (Inr x)
    then show ?thesis using s p Cons.IH [of s1 w1]
      by (auto split: prod.splits sum.splits)
  qed
qed

lemma init_use_local: "init options = Inr self \<Longrightarrow> use_local self"
  by (auto simp: init_def Let_def split: sum.splits if_splits)

section \<open>Facts about fetching a page\<close>

lemma get_and_parse_first_get_raises:
  "requests_get env (length w) url = Inl e \<Longrightarrow> get_and_parse env url w = (Inl e, w @ [Get url])"
  by (simp add: get_and_parse_def)

lemma get_and_parse_second_get_raises:
  "requests_get env (length w) url = Inr p \<Longrightarrow> requests_get env (Suc (length w)) url = Inl e \<Longrightarrow>
     get_and_parse env url w = (Inr None, w @ [Get url, Get url])"
  by (simp add: get_and_parse_def)

section \<open>Facts about the decoder\<close>

lemma decode_ignore_sequences:
  "bytes_decode_utf8 Ignore page =
     Inr (concat (map (\<lambda>r. case r of None \<Rightarrow> [] | Some c \<Rightarrow> [c]) (utf8_sequences page)))"
proof (induction page rule: utf8_sequences.induct)
  case 1
  then show ?case by simp
next
  case (2 ch s)
  obtain r k where n: "utf8_next ch s = (r, k)"
    by (cases "utf8_next ch s") auto
  from "2.IH" [OF n [symmetric]] n show ?case
    by (cases r) simp_all
qed

lemma decode_replace_sequences:
  "bytes_decode_utf8 Replace page =
     Inr (map (\<lambda>r. case r of None \<Rightarrow> 0xFFFD | Some c \<Rightarrow> c) (utf8_sequences page))"
proof (induction page rule: utf8_sequences.induct)
  case 1
  then show ?case by simp
next
  case (2 ch s)
  obtain r k where n: "utf8_next ch s = (r, k)"
    by (cases "utf8_next ch s") auto
  from "2.IH" [OF n [symmetric]] n show ?case
    by (cases r) simp_all
qed

lemma decode_strict_sequences:
  "bytes_decode_utf8 Strict page =
     (if None \<in> set (utf8_sequences page) then Inl UnicodeDecodeError
      else Inr (map the (utf8_sequences page)))"
proof (induction page rule: utf8_sequences.induct)
  case 1
  then show ?case by simp
next
  case (2 ch s)
  obtain r k where n: "utf8_next ch s = (r, k)"
    by (cases "utf8_next ch s") auto
  from "2.IH" [OF n [symmetric]] n show ?case
    by (cases r) auto
qed

section \<open>Facts about the local query loop\<close>

lemma local_loop_length:
  "local_loop env n g c w = (Inr c', w') \<Longrightarrow> length c \<le> nat n \<Longrightarrow> length c' \<le> nat n"
proof (induction env n g c w rule: local_loop.induct)
  case (1 env n content w)
  then show ?case by simp
next
  case (2 env n e urls content w)
  then show ?case by simp
next
  case (3 env n url urls content w)
  show ?case
  proof (cases "n \<le> int (length content)")
    case True
    then show ?thesis using "3.prems" by simp
  next
    case False
    then have lt: "length (content @ [x]) \<le> nat n" for x :: item by simp
    obtain r w1 where g: "get_and_parse env url w = (r, w1)"
      by (cases "get_and_parse env url w") auto
    show ?thesis
    proof (cases r)
      case (Inl e)
      then show ?thesis using False g "3.prems" by simp
    next
      case (Inr m)
      show ?thesis
      proof (cases m)
        case None
        then show ?thesis
          using False g Inr "3.prems" "3.IH"(1) [OF False g [symmetric] Inr None] by simp
      next
        case (Some mc)
        show ?thesis
        proof (cases "mc = []")
          case True
          then show ?thesis
            using False g Inr Some "3.prems" "3.IH"(3) [OF False g [symmetric] Inr Some] by simp
        next
          case F: False
          then show ?thesis
            using False g Inr Some "3.prems" lt "3.IH"(2) [OF False g [symmetric] Inr Some] by simp
        qed
      qed
    qed
  qed
qed

lemma query_local_at_most_n:
  "query_local_search_server env q n w = (Inr (Some docs), w') \<Longrightarrow> length docs \<le> nat n"
proof -
  assume a: "query_local_search_server env q n w = (Inr (Some docs), w')"
  obtain r w1 where l: "local_loop env n (googlesearch_search env (length w) q n) [] (w @ [Search q n]) = (r, w1)"
    by (cases "local_loop env n (googlesearch_search env (length w) q n) [] (w @ [Search q n])") auto
  from a l obtain c where r: "r = Inr c" and d: "docs = slice_to c n"
    by (auto simp: query_local_search_server_def Let_def split: sum.splits)
  have "length c \<le> nat n" using local_loop_length [of env n _ "[]" _ c w1] l r by simp
  then show ?thesis using d by (simp add: slice_to_def)
qed

text \<open>
  Once the count has reached \<open>n\<close> the loop makes no further call, whatever candidates
  remain; and the pages it returns come from the URLs the provider yielded, in the
  provider's order.
\<close>

lemma get_and_parse_url:
  "get_and_parse env url w = (Inr (Some item), w') \<Longrightarrow> dict_get item (py ''url'') [] = url"
  by (auto simp: get_and_parse_def Let_def dict_get_def py_def split: sum.splits)

lemma local_loop_stops:
  "n \<le> int (length c) \<Longrightarrow> local_loop env n g c w = (Inr c, w)
     \<or> (\<exists>e g'. g = Raise e # g' \<and> local_loop env n g c w = (Inl e, w))"
  by (cases g rule: yielded.cases) simp_all

lemma local_loop_order:
  "local_loop env n g c w = (Inr c', w') \<Longrightarrow>
     \<exists>ys. c' = c @ ys \<and> subseq (map (\<lambda>i. dict_get i (py ''url'') []) ys) (yielded g)"
proof (induction env n g c w rule: local_loop.induct)
  case (1 env n content w)
  then show ?case by simp
next
  case (2 env n e urls content w)
  then show ?case by simp
next
  case (3 env n url urls content w)
  show ?case
  proof (cases "n \<le> int (length content)")
    case True
    then show ?thesis using "3.prems" by simp
  next
    case False
    obtain r w1 where g: "get_and_parse env url w = (r, w1)"
      by (cases "get_and_parse env url w") auto
    show ?thesis
    proof (cases r)
      case (Inl e)
      then show ?thesis using False g "3.prems" by simp
    next
      case (Inr m)
      show ?thesis
      proof (cases m)
        case None
        then show ?thesis
          using False g Inr "3.prems" "3.IH"(1) [OF False g [symmetric] Inr None] by auto
      next
        case (Some mc)
        have u: "dict_get mc (py ''url'') [] = url"
          using g Inr Some get_and_parse_url by blast
        show ?thesis
        proof (cases "mc = []")
          case True
          then show ?thesis
            using False g Inr Some "3.prems" "3.IH"(3) [OF False g [symmetric] Inr Some] by auto
        next
          case F: False
          from False g Inr Some F "3.prems" "3.IH"(2) [OF False g [symmetric] Inr Some F]
          obtain ys where "c' = (content @ [mc]) @ ys"
            "subseq (map (\<lambda>i. dict_get i (py ''url'') []) ys) (yielded urls)"
            by auto
          then have "c' = content @ (mc # ys)"
            "subseq (map (\<lambda>i. dict_get i (py ''url'') []) (mc # ys)) (yielded (Yield url # urls))"
            using u by simp_all
          then show ?thesis by blast
        qed
      qed
    qed
  qed
qed

section \<open>Facts about the assembly of documents\<close>

lemma assemble_docs_char:
  "assemble_docs rds acc =
     (if \<forall>rd\<in>set rds. map_of rd CONTENT \<noteq> None
      then Inr (acc @ map (\<lambda>rd. create_content_dict (PList (sentences_of (the (map_of rd CONTENT))))
                               [(py ''url'', PStr (case map_of rd (py ''url'') of None \<Rightarrow> [] | Some u \<Rightarrow> u)),
                                (py ''title'', PStr (case map_of rd (py ''title'') of None \<Rightarrow> [] | Some t \<Rightarrow> t))]) rds)
      else Inl (KeyError CONTENT))"
proof (induction rds arbitrary: acc)
  case Nil
  then show ?case by simp
next
  case (Cons rd rds)
  show ?case
  proof (cases "map_of rd CONTENT")
    case None
    then show ?thesis by simp
  next
    case (Some c)
    then show ?thesis using Cons.IH by (simp add: dict_get_def Let_def)
  qed
qed




lemma dropWhile_hd_id: "xs = [] \<or> \<not> P (hd xs) \<Longrightarrow> dropWhile P xs = xs"
  by (cases xs) auto

lemma str_strip_idem: "str_strip (str_strip s) = str_strip s"
proof -
  define d where "d = dropWhile isspace s"
  define e where "e = dropWhile isspace (rev d)"
  have t: "str_strip s = rev e" by (simp add: str_strip_def d_def e_def)
  show ?thesis
  proof (cases "e = []")
    case True
    then have "str_strip s = []" using t by simp
    moreover have "str_strip [] = []" by (simp add: str_strip_def)
    ultimately show ?thesis by simp
  next
    case False
    have he: "\<not> isspace (hd e)"
      using False hd_dropWhile [of isspace "rev d"] by (simp add: e_def)
    have "rev d = takeWhile isspace (rev d) @ e"
      by (simp add: e_def)
    then have "d = rev e @ rev (takeWhile isspace (rev d))"
      by (metis rev_append rev_rev_ident)
    then have hd: "hd d = hd (rev e)" and dne: "d \<noteq> []"
      using False by (metis hd_append2 rev_is_Nil_conv, metis append_is_Nil_conv rev_is_Nil_conv)
    have "\<not> isspace (hd d)"
      using dne hd_dropWhile [of isspace s] by (simp add: d_def)
    then have 1: "dropWhile isspace (rev e) = rev e"
      using hd by (simp add: dropWhile_hd_id)
    have 2: "dropWhile isspace e = e"
      using he by (simp add: dropWhile_hd_id)
    show ?thesis using t 1 2 by (simp add: str_strip_def)
  qed
qed

lemma sentences_of_trimmed:
  "s \<in> set (sentences_of c) \<Longrightarrow> s \<noteq> [] \<and> str_strip s = s"
  by (auto simp: sentences_of_def str_strip_idem)

lemma create_content_dict_content:
  "map_of (create_content_dict c [(py ''url'', u), (py ''title'', t)]) CONTENT = Some c"
  by (simp add: create_content_dict_def CONTENT_def py_def)

lemma assemble_docs_content:
  assumes "assemble_docs rds [] = Inr docs" and "d \<in> set docs"
  shows "\<exists>ss. map_of d CONTENT = Some (PList ss) \<and> (\<forall>s\<in>set ss. s \<noteq> [] \<and> str_strip s = s)"
proof -
  from assms(1) have "docs = map (\<lambda>rd. create_content_dict (PList (sentences_of (the (map_of rd CONTENT))))
                               [(py ''url'', PStr (case map_of rd (py ''url'') of None \<Rightarrow> [] | Some u \<Rightarrow> u)),
                                (py ''title'', PStr (case map_of rd (py ''title'') of None \<Rightarrow> [] | Some t \<Rightarrow> t))]) rds"
    by (simp add: assemble_docs_char split: if_splits)
  with assms(2) obtain rd where
    "d = create_content_dict (PList (sentences_of (the (map_of rd CONTENT))))
                               [(py ''url'', PStr (case map_of rd (py ''url'') of None \<Rightarrow> [] | Some u \<Rightarrow> u)),
                                (py ''title'', PStr (case map_of rd (py ''title'') of None \<Rightarrow> [] | Some t \<Rightarrow> t))]"
    by auto
  then have "map_of d CONTENT = Some (PList (sentences_of (the (map_of rd CONTENT))))"
    by (simp add: create_content_dict_content)
  then show ?thesis using sentences_of_trimmed by blast
qed

lemma retrieve_single_content:
  assumes "retrieve_single env self q n w = (Inr (Some docs), self', w')" and "d \<in> set docs"
  shows "\<exists>ss. map_of d CONTENT = Some (PList ss) \<and> (\<forall>s\<in>set ss. s \<noteq> [] \<and> str_strip s = s)"
proof -
  from assms obtain rds where "assemble_docs rds [] = Inr docs"
    by (auto simp: retrieve_single_def retrieve_single_tail_def Let_def
        split: if_splits prod.splits sum.splits option.splits)
  then show ?thesis using assms(2) by (rule assemble_docs_content)
qed

section \<open>The items of the local path\<close>

text \<open>
  Every page record of \<open>_get_and_parse\<close> carries the key \<open>content\<close>, so every item
  that the local path hands to the assembly loop does.
\<close>

lemma get_and_parse_has_content:
  "get_and_parse env url w = (Inr (Some item), w') \<Longrightarrow> map_of item CONTENT \<noteq> None"
  by (auto simp: get_and_parse_def Let_def CONTENT_def py_def split: sum.splits)

lemma local_loop_has_content:
  "local_loop env n g c w = (Inr c', w') \<Longrightarrow> \<forall>i\<in>set c. map_of i CONTENT \<noteq> None \<Longrightarrow>
     \<forall>i\<in>set c'. map_of i CONTENT \<noteq> None"
proof (induction env n g c w rule: local_loop.induct)
  case (1 env n content w)
  then show ?case by simp
next
  case (2 env n e urls content w)
  then show ?case by simp
next
  case (3 env n url urls content w)
  show ?case
  proof (cases "n \<le> int (length content)")
    case True
    then show ?thesis using "3.prems" by simp
  next
    case False
    obtain r w1 where g: "get_and_parse env url w = (r, w1)"
      by (cases "get_and_parse env url w") auto
    show ?thesis
    proof (cases r)
      case (Inl e)
      then show ?thesis using False g "3.prems" by simp
    next
      case (Inr m)
      show ?thesis
      proof (cases m)
        case None
        then show ?thesis
          using False g Inr "3.prems" "3.IH"(1) [OF False g [symmetric] Inr None] by simp
      next
        case (Some mc)
        have mc: "map_of mc CONTENT \<noteq> None"
          using g Inr Some get_and_parse_has_content by blast
        show ?thesis
        proof (cases "mc = []")
          case True
          then show ?thesis
            using False g Inr Some "3.prems" "3.IH"(3) [OF False g [symmetric] Inr Some] by simp
        next
          case F: False
          have "\<forall>i\<in>set (content @ [mc]). map_of i CONTENT \<noteq> None"
            using mc "3.prems"(2) by simp
          then show ?thesis
            using False g Inr Some F "3.prems"(1) "3.IH"(2) [OF False g [symmetric] Inr Some F] by simp
        qed
      qed
    qed
  qed
qed

lemma query_local_has_content:
  assumes "query_local_search_server env q n w = (Inr (Some resp), w')"
  shows "\<forall>i\<in>set resp. map_of i CONTENT \<noteq> None"
proof -
  let ?g = "googlesearch_search env (length w) q n"
  obtain r w1 where l: "local_loop env n ?g [] (w @ [Search q n]) = (r, w1)"
    by (cases "local_loop env n ?g [] (w @ [Search q n])") auto
  from assms l obtain c where r: "r = Inr c" and d: "resp = slice_to c n"
    by (auto simp: query_local_search_server_def Let_def split: sum.splits)
  have "\<forall>i\<in>set c. map_of i CONTENT \<noteq> None"
    using local_loop_has_content [of env n ?g "[]" _ c w1] l r by simp
  then show ?thesis using d
    by (auto simp: slice_to_def dest: in_set_takeD)
qed

section \<open>Length and order of the batch\<close>




section \<open>Transport failures\<close>

text \<open>
  C2: \<open>_get_and_parse\<close> calls \<open>requests.get(url)\<close> once before its \<open>try\<close> and once
  inside it. A transport failure of the first call is not turned into the failure marker
  \<open>None\<close>: it leaves the function as an exception. In the world where the requests for
  \<open>u1\<close> fail with \<open>ConnectionError\<close>, \<open>_get_and_parse('u1')\<close> raises
  \<open>ConnectionError\<close> after one GET.
\<close>

theorem get_and_parse_raises_on_u1:
  "get_and_parse env_u1_down (py ''u1'') [] = (Inl ConnectionError, [Get (py ''u1'')])"
  by (simp add: eval_defs)

section \<open>The skip token\<close>

text \<open>
  C3: a query equal to the skip token gives \<open>None\<close> whatever \<open>num_ret\<close> is, and
  leaves the object and the log of calls as they were, so neither the provider nor a
  page is requested for it; in a batch, the entry at its position is \<open>None\<close> and the
  state after it is the state before it. The mock gives \<open>None\<close> at its position too.
\<close>

theorem skip_token_no_retrieval:
  "(skip_query_token self = PStr q \<longrightarrow> retrieve_single env self q n w = (Inr None, self, w))
   \<and> (retrieve env self qs n w = (Inr rs, self', w') \<and> i < length qs
        \<and> skip_query_token self = PStr (qs ! i) \<longrightarrow>
        rs ! i = None
        \<and> (\<exists>s1 w1. retrieve env self (take i qs) n w = (Inr (take i rs), s1, w1)
                  \<and> retrieve env self (take (Suc i) qs) n w = (Inr (take (Suc i) rs), s1, w1)))
   \<and> (j < length qs \<and> tok = PStr (qs ! j) \<longrightarrow> mock_retrieve tok qs n ! j = None)"
proof -
  have a: "skip_query_token self = PStr q \<longrightarrow> retrieve_single env self q n w = (Inr None, self, w)"
    by (simp add: retrieve_single_def)
  have b: "rs ! i = None
        \<and> (\<exists>s1 w1. retrieve env self (take i qs) n w = (Inr (take i rs), s1, w1)
                  \<and> retrieve env self (take (Suc i) qs) n w = (Inr (take (Suc i) rs), s1, w1))"
    if r: "retrieve env self qs n w = (Inr rs, self', w')" and i: "i < length qs"
      and k: "skip_query_token self = PStr (qs ! i)"
  proof -
    from retrieve_split_at [OF r i] obtain s1 w1 s2 w2 where
      1: "retrieve env self (take i qs) n w = (Inr (take i rs), s1, w1)" and
      2: "retrieve_single env s1 (qs ! i) n w1 = (Inr (rs ! i), s2, w2)" and
      3: "retrieve env self (take (Suc i) qs) n w = (Inr (take (Suc i) rs), s2, w2)" and
      4: "skip_query_token s1 = skip_query_token self"
      by blast
    from 2 4 k have "rs ! i = None" "s2 = s1" "w2 = w1"
      by (simp_all add: retrieve_single_def)
    then show ?thesis using 1 3 by blast
  qed
  have c: "j < length qs \<and> tok = PStr (qs ! j) \<longrightarrow> mock_retrieve tok qs n ! j = None"
    by (simp add: mock_retrieve_def mock_queries_loop_map)
  show ?thesis using a b c by blast
qed

theorem skip_token_no_retrieval_witness:
  "retrieve_single env_up self_local (py ''skip'') 3 [] = (Inr None, self_local, [])
   \<and> (\<exists>rs self' w'. retrieve env_up self_local [py ''skip'', py ''q''] 1 [] = (Inr rs, self', w')
         \<and> rs ! 0 = None)
   \<and> mock_retrieve (PStr (py ''skip'')) [py ''q'', py ''skip''] 7 ! 1 = None"
proof -
  let ?qs = "[py ''skip'', py ''q'']"
  have k: "skip_query_token self_local = PStr (py ''skip'')"
    by (simp add: self_local_def)
  have a: "retrieve_single env_up self_local (py ''skip'') 3 [] = (Inr None, self_local, [])"
    using k skip_token_no_retrieval [where self = self_local and q = "py ''skip''"
        and env = env_up and n = 3 and w = "[]"] by blast
  obtain rs self' w' where r: "retrieve env_up self_local ?qs 1 [] = (Inr rs, self', w')"
    using retrieve_up_skip_q by blast
  have "(0::nat) < length ?qs" "skip_query_token self_local = PStr (?qs ! 0)"
    using k by simp_all
  then have b: "rs ! 0 = None"
    using r skip_token_no_retrieval [where self = self_local and env = env_up and n = 1
        and w = "[]" and qs = ?qs and rs = rs and self' = self' and w' = w' and i = 0] by blast
  have "(1::nat) < length [py ''q'', py ''skip'']" "PStr (py ''skip'') = PStr ([py ''q'', py ''skip''] ! 1)"
    by simp_all
  then have c: "mock_retrieve (PStr (py ''skip'')) [py ''q'', py ''skip''] 7 ! 1 = None"
    using skip_token_no_retrieval [where qs = "[py ''q'', py ''skip'']" and j = 1
        and tok = "PStr (py ''skip'')" and n = 7]
    by blast
  show ?thesis using a b c r by blast
qed

section \<open>A request for zero documents\<close>

text \<open>
  C4: with \<open>num_ret = 0\<close>, a query that is not the skip token still calls the search
  provider, once, and takes the first step of its generator; no page is fetched, so the
  log grows by exactly the \<open>Search\<close> event. The result is the empty list of documents
  unless that first step raises, and then the exception leaves \<open>_retrieve_single\<close>.
\<close>

theorem zero_documents_requested:
  "PStr q \<noteq> skip_query_token self \<longrightarrow>
     retrieve_single env self q 0 w =
       ((case googlesearch_search env (length w) q 0 of
           Raise e # _ \<Rightarrow> Inl e
         | _ \<Rightarrow> Inr (Some [])),
        self\<lparr>use_local := True\<rparr>, w @ [Search q 0])"
proof (cases "googlesearch_search env (length w) q 0")
  case Nil
  then show ?thesis
    by (simp add: retrieve_single_def retrieve_single_tail_def query_local_search_server_def
        slice_to_def)
next
  case (Cons s g)
  then show ?thesis
    by (cases s)
       (simp_all add: retrieve_single_def retrieve_single_tail_def query_local_search_server_def
          slice_to_def)
qed

theorem zero_documents_requested_witness:
  "retrieve_single env_up self_local (py ''q'') 0 [] = (Inr (Some []), self_local, [Search (py ''q'') 0])"
proof -
  have h: "PStr (py ''q'') \<noteq> skip_query_token self_local"
    by (simp add: self_local_def py_def)
  have g: "googlesearch_search env_up 0 (py ''q'') 0 = [Yield (py ''u1''), Yield (py ''u2'')]"
    by (simp add: env_up_def)
  have s: "self_local\<lparr>use_local := True\<rparr> = self_local"
    by (simp add: self_local_def)
  show ?thesis
    using h zero_documents_requested [of "py ''q''" self_local env_up "[]"]
    by (simp add: g s)
qed

text \<open>
  The provider is contacted for \<open>num_ret = 0\<close>: the log holds the \<open>Search\<close> event
  afterwards, and where the provider fails the query raises instead of returning the
  empty list.
\<close>

theorem zero_documents_provider_called:
  "filter is_search (snd (snd (retrieve_single env_up self_local (py ''q'') 0 []))) = [Search (py ''q'') 0]
   \<and> fst (retrieve_single env_provider_down self_local (py ''q'') 0 []) = Inl HTTPError"
  by (simp add: eval_defs)

section \<open>A failed fetch inside a query\<close>

text \<open>
  C5: the loop of \<open>_query_local_search_server\<close> has no handler of its own, so the
  exception that \<open>_get_and_parse\<close> lets through for a failed first request ends the
  query instead of skipping the URL. In the world where the provider yields \<open>u1\<close> and
  \<open>u2\<close> and the requests for \<open>u1\<close> fail, a query for one document raises
  \<open>ConnectionError\<close> after one GET of \<open>u1\<close>, although \<open>u2\<close> can be fetched; and
  \<open>retrieve\<close> raises with it.
\<close>

theorem query_local_aborts_on_u1:
  "query_local_search_server env_u1_down (py ''q'') 1 []
     = (Inl ConnectionError, [Search (py ''q'') 1, Get (py ''u1'')])
   \<and> fst (get_and_parse env_u1_down (py ''u2'') [Search (py ''q'') 1, Get (py ''u1'')])
     = Inr (Some [(py ''title'', py ''None''), (py ''content'', py ''hi'' @ [10, 32, 10, 32, 97, 32]),
                  (py ''url'', py ''u2'')])
   \<and> retrieve env_u1_down self_local [py ''q''] 1 []
     = (Inl ConnectionError, self_local, [Search (py ''q'') 1, Get (py ''u1'')])"
  by (simp add: eval_defs)

section \<open>The content of a document\<close>

text \<open>
  C6: the mock passes a single string as the content of its documents, where
  \<open>create_content_dict\<close> declares \<open>content: list\<close> and \<open>SearchEngineRetriever\<close> passes
  the list of stripped sentences. For the query \<open>q\<close> and \<open>num_ret = 1\<close> the content of
  the one document is the string \<open>content 0 for query "q"\<close>.
\<close>

theorem mock_content_is_a_string:
  "mock_retrieve (PStr (py ''skip'')) [py ''q''] 1 =
     [Some [[(py ''content'', PStr (py ''content 0 for query '' @ [34] @ py ''q'' @ [34])),
             (py ''url'', PStr (py ''url_0'')), (py ''title'', PStr (py ''title_0''))]]]"
  by (simp add: mock_retrieve_def py_range_def py_def create_content_dict_def str_of_nat.simps
      CONTENT_def)

section \<open>Dispatch\<close>

text \<open>
  C7: whatever the object's address and flag are, a query that is not the skip token
  is sent down the local path: the log after \<open>_retrieve_single\<close> is the log after
  \<open>_query_local_search_server\<close>; no call of \<open>_retrieve_single\<close> or \<open>retrieve\<close> adds a
  POST to the log; and every constructed object has \<open>use_local\<close> set.
\<close>

theorem dispatch_always_local:
  "(PStr q \<noteq> skip_query_token self \<longrightarrow>
      snd (snd (retrieve_single env self q n w)) = snd (query_local_search_server env q n w))
   \<and> filter is_post (snd (snd (retrieve_single env self q n w))) = filter is_post w
   \<and> filter is_post (snd (snd (retrieve env self qs n w))) = filter is_post w
   \<and> (init options = Inr self0 \<longrightarrow> use_local self0)"
  using retrieve_single_world retrieve_single_posts retrieve_posts init_use_local by blast

theorem dispatch_always_local_witness:
  "snd (snd (retrieve_single env_up self_remote (py ''q'') 1 []))
       = snd (query_local_search_server env_up (py ''q'') 1 [])
   \<and> filter is_post (snd (snd (retrieve_single env_up self_remote (py ''q'') 1 []))) = []
   \<and> (\<exists>s. init \<lparr>skip_retrieval_token = PBool False,
                   search_server = Some (py ''http://example.com/search'')\<rparr> = Inr s
          \<and> use_local s)"
proof -
  have h: "PStr (py ''q'') \<noteq> skip_query_token self_remote"
    by (simp add: self_remote_def)
  note t = dispatch_always_local [where q = "py ''q''" and self = self_remote and env = env_up
        and n = 1 and w = "[]" and qs = "[]"
        and options = "\<lparr>skip_retrieval_token = PBool False,
                         search_server = Some (py ''http://example.com/search'')\<rparr>"]
  have a: "snd (snd (retrieve_single env_up self_remote (py ''q'') 1 []))
       = snd (query_local_search_server env_up (py ''q'') 1 [])"
    using h t by blast
  have b: "filter is_post (snd (snd (retrieve_single env_up self_remote (py ''q'') 1 []))) = []"
    using t by simp
  obtain s where s: "init \<lparr>skip_retrieval_token = PBool False,
                      search_server = Some (py ''http://example.com/search'')\<rparr> = Inr s"
    by (simp add: init_def validate_server_def startswith_def py_def)
  have c: "\<exists>s. init \<lparr>skip_retrieval_token = PBool False,
                      search_server = Some (py ''http://example.com/search'')\<rparr> = Inr s
          \<and> use_local s"
    using s dispatch_always_local [where self0 = s
        and options = "\<lparr>skip_retrieval_token = PBool False,
                         search_server = Some (py ''http://example.com/search'')\<rparr>"]
    by blast
  show ?thesis using a b c by blast
qed

section \<open>Server address validation\<close>

lemma startswith_http_not_local:
  "startswith a (py ''http://'') \<or> startswith a (py ''https://'') \<Longrightarrow>
     a \<noteq> [] \<and> \<not> startswith a (py ''local_google'')"
  by (cases a) (auto simp: startswith_def py_def)

text \<open>
  C8: validation raises exactly when the address is absent or empty, and what it
  raises is \<open>ValueError\<close>; an address that starts with \<open>http://\<close> or \<open>https://\<close> is
  returned as it is; any other non-empty address that does not start with
  \<open>local_google\<close> is returned with \<open>http://\<close> in front. Construction fails exactly
  when validation does, and stores the validated address.
\<close>

theorem validate_server_cases:
  "((\<exists>e. validate_server address = Inl e) \<longleftrightarrow> address = None \<or> address = Some [])
   \<and> (validate_server address = Inl e \<longrightarrow> e = ValueError)
   \<and> (startswith a (py ''http://'') \<or> startswith a (py ''https://'')
        \<longrightarrow> validate_server (Some a) = Inr (a, False))
   \<and> (b \<noteq> [] \<and> \<not> startswith b (py ''local_google'') \<and> \<not> startswith b (py ''http://'')
          \<and> \<not> startswith b (py ''https://'')
        \<longrightarrow> validate_server (Some b) = Inr (py ''http://'' @ b, False))
   \<and> ((\<exists>e. init options = Inl e) \<longleftrightarrow> search_server options = None \<or> search_server options = Some [])
   \<and> (init options = Inr self \<and> validate_server (search_server options) = Inr (c, f) \<longrightarrow> server_address self = c)"
proof -
  have 1: "(\<exists>e. validate_server address = Inl e) \<longleftrightarrow> address = None \<or> address = Some []"
    by (auto simp: validate_server_def split: option.splits)
  have 2: "validate_server address = Inl e \<longrightarrow> e = ValueError"
    by (auto simp: validate_server_def split: option.splits if_splits)
  have 3: "startswith a (py ''http://'') \<or> startswith a (py ''https://'')
        \<longrightarrow> validate_server (Some a) = Inr (a, False)"
    using startswith_http_not_local [of a] by (auto simp: validate_server_def)
  have 4: "b \<noteq> [] \<and> \<not> startswith b (py ''local_google'') \<and> \<not> startswith b (py ''http://'')
          \<and> \<not> startswith b (py ''https://'')
        \<longrightarrow> validate_server (Some b) = Inr (py ''http://'' @ b, False)"
    by (simp add: validate_server_def)
  have 5: "(\<exists>e. init options = Inl e) \<longleftrightarrow> search_server options = None \<or> search_server options = Some []"
    by (auto simp: init_def validate_server_def Let_def split: option.splits if_splits)
  have 6: "init options = Inr self \<and> validate_server (search_server options) = Inr (c, f) \<longrightarrow> server_address self = c"
    by (auto simp: init_def Let_def split: if_splits)
  from 1 2 3 4 5 6 show ?thesis by blast
qed

theorem validate_server_cases_witness:
  "validate_server (Some []) = Inl ValueError
   \<and> validate_server (Some (py ''https://x.org'')) = Inr (py ''https://x.org'', False)
   \<and> validate_server (Some (py ''example.com/search'')) = Inr (py ''http://example.com/search'', False)"
proof -
  have h1: "\<exists>e. validate_server (Some []) = Inl e"
    using validate_server_cases [of "Some []"] by blast
  then obtain e where e: "validate_server (Some []) = Inl e" ..
  have a: "validate_server (Some []) = Inl ValueError"
    using e validate_server_cases [of "Some []" e] by simp
  have h2: "startswith (py ''https://x.org'') (py ''https://'')"
    by (simp add: startswith_def py_def)
  have b: "validate_server (Some (py ''https://x.org'')) = Inr (py ''https://x.org'', False)"
    using h2 validate_server_cases [of _ _ "py ''https://x.org''"] by blast
  have h3: "py ''example.com/search'' \<noteq> [] \<and> \<not> startswith (py ''example.com/search'') (py ''local_google'')
       \<and> \<not> startswith (py ''example.com/search'') (py ''http://'')
       \<and> \<not> startswith (py ''example.com/search'') (py ''https://'')"
    by (simp add: startswith_def py_def)
  have "validate_server (Some (py ''example.com/search'')) = Inr (py ''http://'' @ py ''example.com/search'', False)"
    using h3 validate_server_cases [of _ _ _ "py ''example.com/search''"] by blast
  then have c: "validate_server (Some (py ''example.com/search'')) = Inr (py ''http://example.com/search'', False)"
    by (simp add: py_def)
  from a b c show ?thesis by blast
qed

section \<open>Decoding the page\<close>

text \<open>
  C9: the page is decoded with the handler \<open>ignore\<close>: for every byte string the decoding
  succeeds, and its result is the scalar values of the well-formed sequences in order,
  with nothing in the place of an ill-formed sequence. That text is what
  \<open>_get_and_parse\<close> hands to \<open>html2text\<close> whenever both requests succeed and the title
  extraction does not raise: the rendering of it is the content of the page record, and
  an exception of the rendering leaves the function.
\<close>

theorem decode_drops_ill_formed:
  "bytes_decode_utf8 Ignore page =
     Inr (concat (map (\<lambda>r. case r of None \<Rightarrow> [] | Some c \<Rightarrow> [c]) (utf8_sequences page)))
   \<and> (requests_get env (length w) url = Inr first
        \<and> requests_get env (Suc (length w)) url = Inr page
        \<and> soup_title env page = Inr pre_rendered \<longrightarrow>
        fst (get_and_parse env url w) =
          (case html2text_handle env
                  (concat (map (\<lambda>r. case r of None \<Rightarrow> [] | Some c \<Rightarrow> [c])
                     (utf8_sequences page))) of
             Inl e \<Rightarrow> Inl e
           | Inr content \<Rightarrow>
               Inr (Some [(py ''title'',
                           str_remove 13 (str_remove 10
                             (case pre_rendered of Some rendered \<Rightarrow> rendered
                                                 | None \<Rightarrow> py ''None''))),
                          (py ''content'', content), (py ''url'', url)])))"
  by (simp add: decode_ignore_sequences get_and_parse_def Let_def py_def split: sum.splits)

theorem decode_drops_ill_formed_witness:
  "bytes_decode_utf8 Ignore page_hi = Inr [104, 105, 10, 32, 10, 32, 97, 32]
   \<and> fst (get_and_parse env_up (py ''u1'') []) =
       Inr (Some [(py ''title'', py ''None''), (py ''content'', [104, 105, 10, 32, 10, 32, 97, 32]),
                  (py ''url'', py ''u1'')])
   \<and> fst (get_and_parse env_render_fails (py ''u1'') []) = Inl AssertionError"
proof -
  have g: "requests_get env_up (length ([]::world)) (py ''u1'') = Inr page_hi
           \<and> requests_get env_up (Suc (length ([]::world))) (py ''u1'') = Inr page_hi
           \<and> soup_title env_up page_hi = Inr None"
    by (simp add: env_up_def)
  have g': "requests_get env_render_fails (length ([]::world)) (py ''u1'') = Inr page_hi
           \<and> requests_get env_render_fails (Suc (length ([]::world))) (py ''u1'') = Inr page_hi
           \<and> soup_title env_render_fails page_hi = Inr None"
    by (simp add: env_render_fails_def env_up_def)
  have h: "html2text_handle env_up = (\<lambda>s. Inr s)"
    by (simp add: env_up_def)
  have h': "html2text_handle env_render_fails = (\<lambda>s. Inl AssertionError)"
    by (simp add: env_render_fails_def)
  have n: "str_remove 13 (str_remove 10 (py ''None'')) = py ''None''"
    by (simp add: str_remove_def py_def)
  have a: "bytes_decode_utf8 Ignore page_hi = Inr [104, 105, 10, 32, 10, 32, 97, 32]"
    using decode_drops_ill_formed [where page = page_hi] by (simp add: sequences_page_hi)
  have b: "fst (get_and_parse env_up (py ''u1'') []) =
       Inr (Some [(py ''title'', py ''None''), (py ''content'', [104, 105, 10, 32, 10, 32, 97, 32]),
                  (py ''url'', py ''u1'')])"
    using g decode_drops_ill_formed [where page = page_hi and env = env_up and w = "[]"
        and url = "py ''u1''" and first = page_hi and pre_rendered = None]
    by (simp add: sequences_page_hi h n)
  have c: "fst (get_and_parse env_render_fails (py ''u1'') []) = Inl AssertionError"
    using g' decode_drops_ill_formed [where page = page_hi and env = env_render_fails
        and w = "[]" and url = "py ''u1''" and first = page_hi and pre_rendered = None]
    by (simp add: h')
  show ?thesis using a b c by blast
qed

text \<open>
  Ill-formed sequences are not replaced: the byte \<open>0xFF\<close> of the page \<open>page_hi\<close> leaves
  no trace in the content, while decoding with the handler \<open>replace\<close> puts U+FFFD
  there.
\<close>

theorem decode_does_not_replace:
  "fst (get_and_parse env_up (py ''u1'') [])
     = Inr (Some [(py ''title'', py ''None''), (py ''content'', [104, 105, 10, 32, 10, 32, 97, 32]),
                  (py ''url'', py ''u1'')])
   \<and> bytes_decode_utf8 Replace page_hi = Inr [104, 105, 10, 32, 0xFFFD, 10, 32, 97, 32]
   \<and> bytes_decode_utf8 Ignore page_hi \<noteq> bytes_decode_utf8 Replace page_hi"
  by (simp add: eval_defs)

section \<open>Items with missing keys\<close>



end
